theory Spec2Isabelle
  imports Main
begin

section \<open>Python strings\<close>

text \<open>
  A Python \<open>str\<close> is a sequence of Unicode code points. A code point is modelled as a
  natural number and a string as a list of them; \<open>ustr\<close> reads an ASCII literal.
\<close>

type_synonym codepoint = nat
type_synonym ustring = "codepoint list"

definition ustr :: "string \<Rightarrow> ustring" where
  "ustr s = map of_char s"

text \<open>
  \<open>str.isspace\<close> on one code point: the characters that \<open>str.strip()\<close> removes
  (U+0009..U+000D, U+001C..U+0020, U+0085, U+00A0, U+1680, U+2000..U+200A, U+2028, U+2029,
  U+202F, U+205F, U+3000).
\<close>

definition isspace :: "codepoint \<Rightarrow> bool" where
  "isspace c \<longleftrightarrow>
     (9 \<le> c \<and> c \<le> 13) \<or> (28 \<le> c \<and> c \<le> 32) \<or> c = 133 \<or> c = 160 \<or> c = 5760 \<or>
     (8192 \<le> c \<and> c \<le> 8202) \<or> c = 8232 \<or> c = 8233 \<or> c = 8239 \<or> c = 8287 \<or> c = 12288"

text \<open>\<open>s.strip()\<close>: leading and trailing whitespace removed.\<close>

definition strip :: "ustring \<Rightarrow> ustring" where
  "strip s = rev (dropWhile isspace (rev (dropWhile isspace s)))"

text \<open>\<open>s.startswith(p)\<close>.\<close>

definition startswith :: "ustring \<Rightarrow> ustring \<Rightarrow> bool" where
  "startswith s p \<longleftrightarrow> take (length p) s = p"

definition is_ascii :: "ustring \<Rightarrow> bool" where
  "is_ascii s \<longleftrightarrow> list_all (\<lambda>c. c < 128) s"

definition ascii_lower :: "codepoint \<Rightarrow> codepoint" where
  "ascii_lower c = (if 65 \<le> c \<and> c \<le> 90 then c + 32 else c)"

text \<open>
  \<open>str.lower\<close> and \<open>unicodedata.normalize('NFKC', _)\<close> are driven by the tables of the
  Unicode Character Database, which are not part of the program. On a string of ASCII
  characters both are fixed by the language: \<open>lower\<close> maps \<open>A..Z\<close> to \<open>a..z\<close>, and
  NFKC leaves the string as it is. On every other string the result is read from the
  tables, which the model takes as a parameter.
\<close>

record unicodedata =
  lower_table :: "ustring \<Rightarrow> ustring"
  nfkc_table :: "ustring \<Rightarrow> ustring"

definition lower :: "unicodedata \<Rightarrow> ustring \<Rightarrow> ustring" where
  "lower U s = (if is_ascii s then map ascii_lower s else lower_table U s)"

definition normalize_NFKC :: "unicodedata \<Rightarrow> ustring \<Rightarrow> ustring" where
  "normalize_NFKC U s = (if is_ascii s then s else nfkc_table U s)"

text \<open>
  An excerpt of the Unicode tables, exact at the three code points it lists:
  U+00A8 DIAERESIS has no case mapping and the compatibility decomposition
  \<open><compat> 0020 0308\<close>; U+0308 COMBINING DIAERESIS has no case mapping and no
  decomposition; U+2102 DOUBLE-STRUCK CAPITAL C has no case mapping and the
  decomposition \<open><font> 0043\<close>. Other strings are left as they are.
\<close>

definition unicode_excerpt :: unicodedata where
  "unicode_excerpt =
     \<lparr> lower_table = (\<lambda>s. s),
       nfkc_table = (\<lambda>s. if s = [168] then [32, 776] else if s = [8450] then [67] else s) \<rparr>"

section \<open>normalize_name\<close>

text \<open>
  \<^verbatim>\<open>return unicodedata.normalize('NFKC', name.strip().lower())\<close>
\<close>

definition normalize_name :: "unicodedata \<Rightarrow> ustring \<Rightarrow> ustring" where
  "normalize_name U name = normalize_NFKC U (lower U (strip name))"

text \<open>
  The docstring of \<open>normalize_name\<close> (lines 11 to 13) names the steps in another order:
  "applying Unicode normalization (NFKC), stripping whitespace, and converting to
  lowercase". That order, for comparison with the order of line 18:
\<close>

definition normalize_name_as_documented :: "unicodedata \<Rightarrow> ustring \<Rightarrow> ustring" where
  "normalize_name_as_documented U name = lower U (strip (normalize_NFKC U name))"


section \<open>More string operations\<close>

text \<open>\<open>s.split(sep)\<close> for a one-character separator: every piece, the empty ones too.\<close>

fun split_on :: "codepoint \<Rightarrow> ustring \<Rightarrow> ustring list" where
  "split_on sep [] = [[]]"
| "split_on sep (c # s) =
     (if c = sep then [] # split_on sep s
      else (case split_on sep s of [] \<Rightarrow> [[c]] | p # ps \<Rightarrow> (c # p) # ps))"

text \<open>
  \<open>a, b = s.split(sep, 1)\<close> for a string that contains \<open>sep\<close>: the text before the first
  separator and the text after it.
\<close>

definition split_once :: "codepoint \<Rightarrow> ustring \<Rightarrow> ustring \<times> ustring" where
  "split_once sep s = (takeWhile (\<lambda>c. c \<noteq> sep) s, tl (dropWhile (\<lambda>c. c \<noteq> sep) s))"

text \<open>
  \<open>s.splitlines()\<close>: lines end at \<open>\n\<close>, \<open>\r\<close>, \<open>\r\n\<close>, \<open>\v\<close>, \<open>\f\<close>, U+001C,
  U+001D, U+001E, U+0085, U+2028 and U+2029; the line ends are dropped and there is
  no empty last line.
\<close>

definition is_linebreak :: "codepoint \<Rightarrow> bool" where
  "is_linebreak c \<longleftrightarrow>
     (10 \<le> c \<and> c \<le> 13) \<or> (28 \<le> c \<and> c \<le> 30) \<or> c = 133 \<or> c = 8232 \<or> c = 8233"

fun splitlines_from :: "ustring \<Rightarrow> ustring \<Rightarrow> ustring list" where
  "splitlines_from cur [] = (if cur = [] then [] else [cur])"
| "splitlines_from cur [c] = (if is_linebreak c then [cur] else [cur @ [c]])"
| "splitlines_from cur (c # d # s) =
     (if c = 13 \<and> d = 10 then cur # splitlines_from [] s
      else if is_linebreak c then cur # splitlines_from [] (d # s)
      else splitlines_from (cur @ [c]) (d # s))"

definition splitlines :: "ustring \<Rightarrow> ustring list" where
  "splitlines s = splitlines_from [] s"

text \<open>\<open>os.path.join(a, b)\<close> for a relative \<open>b\<close>.\<close>

definition path_join :: "ustring \<Rightarrow> ustring \<Rightarrow> ustring" where
  "path_join a b = (if a = [] \<or> last a = 47 then a @ b else a @ [47] @ b)"

section \<open>Dictionaries\<close>

text \<open>
  A Python \<open>dict\<close> keeps its keys in insertion order: an association list with one
  entry per key. Assigning to a key that is present replaces the value in place, and a
  new key goes to the end.
\<close>

type_synonym ('k, 'v) dict = "('k \<times> 'v) list"

fun dict_set :: "('k, 'v) dict \<Rightarrow> 'k \<Rightarrow> 'v \<Rightarrow> ('k, 'v) dict" where
  "dict_set [] k v = [(k, v)]"
| "dict_set ((k', v') # d) k v =
     (if k' = k then (k', v) # d else (k', v') # dict_set d k v)"

text \<open>\<open>d.get(k, default)\<close>.\<close>

definition dict_get :: "('k, 'v) dict \<Rightarrow> 'k \<Rightarrow> 'v \<Rightarrow> 'v" where
  "dict_get d k dflt = (case map_of d k of None \<Rightarrow> dflt | Some v \<Rightarrow> v)"

text \<open>\<open>d[k] += n\<close> on a \<open>defaultdict(int)\<close>.\<close>

definition dict_add :: "('k, int) dict \<Rightarrow> 'k \<Rightarrow> int \<Rightarrow> ('k, int) dict" where
  "dict_add d k n = dict_set d k (dict_get d k 0 + n)"

section \<open>The outside world\<close>

text \<open>
  What \<open>print\<close> writes to the console, one value per call; the table of line 133 is
  given by its rows.
\<close>

datatype message =
    Grouping_file_not_found ustring
  | Failed_to_open_grouping_file ustring
  | Looking_for_grouping_file ustring
  | Loaded_mappings nat
  | Found_files nat
  | Processing_file nat nat ustring
  | Processing_complete
  | No_data_available
  | Lines_per_author_heading
  | Lines_per_author "(ustring \<times> int) list"

text \<open>
  Reading the grouping file: \<open>os.path.isfile\<close> is false, or \<open>open\<close> raises, or the
  file opens and the iteration yields its lines until it ends or a read raises.
\<close>

datatype read_event = Line ustring | Read_raises

datatype file_content = Not_a_file | Open_raises | Opens "read_event list"

text \<open>
  \<open>subprocess.run(..., capture_output=True, text=True)\<close>: the call raises, or it
  returns the exit code and the decoded output of the command.
\<close>

datatype completed_process =
    Run_raises
  | Completed (returncode: int) (stdout: ustring) (stderr: ustring)

text \<open>
  The environment of a run. The file system and git answer relative to the working
  directory, which is their first argument. Every library call with an effect can raise:
  \<open>os.getcwd\<close> (in the directory given), \<open>os.chdir\<close> (from a directory to a path),
  \<open>print\<close> (of a message: the console cannot encode it, or is closed), the building
  and sorting of the table by pandas and the plotting by matplotlib (of the rows given).
  \<open>df.sort_values\<close> uses a sort that is not stable: rows with equal counts come in an
  order of the library's, given here by a rank of the rows.
\<close>

record env =
  isdir :: "ustring \<Rightarrow> ustring \<Rightarrow> bool"
  read_file :: "ustring \<Rightarrow> ustring \<Rightarrow> file_content"
  script_dir :: ustring
  git_ls_files :: "ustring \<Rightarrow> completed_process"
  git_blame :: "ustring \<Rightarrow> ustring \<Rightarrow> completed_process"
  getcwd_raises :: "ustring \<Rightarrow> bool"
  chdir_raises :: "ustring \<Rightarrow> ustring \<Rightarrow> bool"
  print_raises :: "message \<Rightarrow> bool"
  table_raises :: "(ustring \<times> int) list \<Rightarrow> bool"
  tie_rank :: "ustring \<times> int \<Rightarrow> nat"
  plot_raises :: "(ustring \<times> int) list \<Rightarrow> bool"

text \<open>What a run can change: the working directory, the console, the figures shown.\<close>

record world =
  cwd :: ustring
  console :: "message list"
  figures :: "(ustring \<times> int) list list"

datatype exn =
    ValueError_not_a_directory ustring
  | ValueError_not_a_repository ustring
  | RuntimeError_list_files ustring
  | Subprocess_exception
  | OSError_getcwd
  | OSError_chdir ustring
  | Print_exception message
  | Table_exception
  | Plot_exception

text \<open>
  A statement with effects takes the world and gives the world it leaves, together with
  its value or the exception it raises. \<open>and_then\<close> is the sequence of two statements:
  an exception of the first ends it. \<open>try_finally\<close> is \<open>try: body finally: cleanup\<close>:
  the cleanup runs whatever the body did, and an exception of the cleanup replaces the
  outcome of the body.
\<close>

type_synonym 'a action = "world \<Rightarrow> (exn + 'a) \<times> world"

definition and_then :: "'a action \<Rightarrow> ('a \<Rightarrow> 'b action) \<Rightarrow> 'b action" where
  "and_then f g w = (case f w of (Inl e, w') \<Rightarrow> (Inl e, w') | (Inr a, w') \<Rightarrow> g a w')"

definition try_finally :: "'a action \<Rightarrow> unit action \<Rightarrow> 'a action" where
  "try_finally body cleanup w =
     (case body w of (outcome, w') \<Rightarrow>
        (case cleanup w' of (Inl e, w'') \<Rightarrow> (Inl e, w'') | (Inr _, w'') \<Rightarrow> (outcome, w'')))"

definition print :: "env \<Rightarrow> message \<Rightarrow> unit action" where
  "print E m w =
     (if print_raises E m then (Inl (Print_exception m), w)
      else (Inr (), w\<lparr>console := console w @ [m]\<rparr>))"

definition getcwd :: "env \<Rightarrow> ustring action" where
  "getcwd E w = (if getcwd_raises E (cwd w) then (Inl OSError_getcwd, w) else (Inr (cwd w), w))"

text \<open>The working directory after \<open>os.chdir(path)\<close> is written \<open>path\<close>.\<close>

definition chdir :: "env \<Rightarrow> ustring \<Rightarrow> unit action" where
  "chdir E path w =
     (if chdir_raises E (cwd w) path then (Inl (OSError_chdir path), w)
      else (Inr (), w\<lparr>cwd := path\<rparr>))"

section \<open>load_grouping_mapping\<close>

text \<open>The body of the loop over the lines of the grouping file.\<close>

definition register_line ::
  "unicodedata \<Rightarrow> (ustring, ustring) dict \<Rightarrow> ustring \<Rightarrow> (ustring, ustring) dict" where
  "register_line U mapping raw =
     (let line = strip raw in
      if line = [] \<or> startswith line (ustr ''#'') then mapping
      else if 58 \<notin> set line then mapping
      else
        let (group_name, aliases_str) = split_once 58 line;
            group_name = strip group_name;
            aliases = [strip alias. alias \<leftarrow> split_on 44 aliases_str, strip alias \<noteq> []]
        in fold (\<lambda>alias m. dict_set m (normalize_name U alias) group_name) aliases mapping)"

fun read_lines ::
  "unicodedata \<Rightarrow> (ustring, ustring) dict \<Rightarrow> read_event list \<Rightarrow> (ustring, ustring) dict option" where
  "read_lines U mapping [] = Some mapping"
| "read_lines U mapping (Read_raises # es) = None"
| "read_lines U mapping (Line l # es) = read_lines U (register_line U mapping l) es"

text \<open>
  The warning of line 30 is printed outside the \<open>try\<close> of the loader and the failure of
  line 46 inside its \<open>except\<close> clause: an exception of either \<open>print\<close> leaves the loader.
\<close>

definition load_grouping_mapping ::
  "unicodedata \<Rightarrow> env \<Rightarrow> ustring \<Rightarrow> (ustring, ustring) dict action" where
  "load_grouping_mapping U E grouping_file_path w =
     (case read_file E (cwd w) grouping_file_path of
        Not_a_file \<Rightarrow>
          and_then (print E (Grouping_file_not_found grouping_file_path))
            (\<lambda>_ w'. (Inr [], w')) w
      | Open_raises \<Rightarrow>
          and_then (print E (Failed_to_open_grouping_file grouping_file_path))
            (\<lambda>_ w'. (Inr [], w')) w
      | Opens es \<Rightarrow>
          (case read_lines U [] es of
             None \<Rightarrow>
               and_then (print E (Failed_to_open_grouping_file grouping_file_path))
                 (\<lambda>_ w'. (Inr [], w')) w
           | Some mapping \<Rightarrow> (Inr mapping, w)))"

section \<open>main\<close>

text \<open>The body of the loop over the lines of one file's blame output.\<close>

definition count_line :: "(ustring, int) dict \<Rightarrow> ustring \<Rightarrow> (ustring, int) dict" where
  "count_line author_counts line =
     (if startswith line [9] then author_counts
      else if startswith line (ustr ''author '') then
        dict_add author_counts (strip (drop (length (ustr ''author '')) line)) 1
      else author_counts)"

text \<open>The body of the loop over the files: one blame call inside \<open>try ... except Exception\<close>.\<close>

definition blame_file ::
  "env \<Rightarrow> ustring \<Rightarrow> (ustring, int) dict \<Rightarrow> ustring \<Rightarrow> (ustring, int) dict" where
  "blame_file E dir author_counts file_path =
     (case git_blame E dir file_path of
        Run_raises \<Rightarrow> author_counts
      | Completed rc out err \<Rightarrow>
          if rc \<noteq> 0 \<or> strip out = [] then author_counts
          else fold (\<lambda>line counts. count_line counts line) (splitlines out) author_counts)"

text \<open>
  The loop over the files. The progress line of line 96 is printed before the \<open>try\<close> of
  the loop body, so an exception of that \<open>print\<close> ends the loop.
\<close>

fun process_files ::
  "env \<Rightarrow> nat \<Rightarrow> nat \<Rightarrow> ustring list \<Rightarrow> (ustring, int) dict \<Rightarrow> (ustring, int) dict action" where
  "process_files E total_files index [] author_counts w = (Inr author_counts, w)"
| "process_files E total_files index (file_path # files) author_counts w =
     (case (if index mod 100 = 0 \<or> index = total_files
            then print E (Processing_file index total_files file_path) w
            else (Inr (), w)) of
        (Inl e, w') \<Rightarrow> (Inl e, w')
      | (Inr _, w') \<Rightarrow>
          process_files E total_files (index + 1) files
            (blame_file E (cwd w') author_counts file_path) w')"

text \<open>The name under which an author is reported.\<close>

definition group_of :: "unicodedata \<Rightarrow> (ustring, ustring) dict \<Rightarrow> ustring \<Rightarrow> ustring" where
  "group_of U group_mapping author = dict_get group_mapping (normalize_name U author) author"

definition grouped_counts ::
  "unicodedata \<Rightarrow> (ustring, ustring) dict \<Rightarrow> (ustring, int) dict \<Rightarrow> (ustring, int) dict" where
  "grouped_counts U group_mapping author_counts =
     fold (\<lambda>(author, count) grouped. dict_add grouped (group_of U group_mapping author) count)
       author_counts []"

text \<open>
  \<open>df.sort_values(by='Lines', ascending=False)\<close>: the rows by falling count, and rows
  with equal counts by the rank the library gives them.
\<close>

definition sort_values :: "env \<Rightarrow> (ustring \<times> int) list \<Rightarrow> (ustring \<times> int) list" where
  "sort_values E rows = sort_key (\<lambda>row. - snd row) (sort_key (tie_rank E) rows)"

text \<open>Lines 129 and 130: the table, sorted.\<close>

definition table :: "env \<Rightarrow> (ustring \<times> int) list \<Rightarrow> (ustring \<times> int) list action" where
  "table E rows w =
     (if table_raises E rows then (Inl Table_exception, w) else (Inr (sort_values E rows), w))"

text \<open>Lines 135 to 148: the two charts of one figure, shown by \<open>plt.show()\<close>.\<close>

definition plot :: "env \<Rightarrow> (ustring \<times> int) list \<Rightarrow> unit action" where
  "plot E df w =
     (if plot_raises E df then (Inl Plot_exception, w)
      else (Inr (), w\<lparr>figures := figures w @ [df]\<rparr>))"

text \<open>The \<open>try\<close> block of \<open>main\<close>, lines 79 to 148.\<close>

definition main_try :: "unicodedata \<Rightarrow> env \<Rightarrow> (ustring, ustring) dict \<Rightarrow> unit action" where
  "main_try U E group_mapping w =
     (case git_ls_files E (cwd w) of
        Run_raises \<Rightarrow> (Inl Subprocess_exception, w)
      | Completed rc out err \<Rightarrow>
          if rc \<noteq> 0 then (Inl (RuntimeError_list_files err), w)
          else
            (let files = splitlines out;
                 total_files = length files
             in and_then (print E (Found_files total_files)) (\<lambda>_.
                and_then (process_files E total_files 1 files []) (\<lambda>author_counts.
                and_then (print E Processing_complete) (\<lambda>_.
                if author_counts = [] then print E No_data_available
                else
                  and_then (table E (grouped_counts U group_mapping author_counts)) (\<lambda>df.
                  and_then (print E Lines_per_author_heading) (\<lambda>_.
                  and_then (print E (Lines_per_author df)) (\<lambda>_.
                  plot E df))))))) w)"

text \<open>Lines 69 to 73: the grouping file given, or \<open>grouping.txt\<close> beside the script.\<close>

definition grouping_file_path_of :: "env \<Rightarrow> ustring option \<Rightarrow> ustring" where
  "grouping_file_path_of E grouping_file =
     (case grouping_file of
        None \<Rightarrow> path_join (script_dir E) (ustr ''grouping.txt'')
      | Some p \<Rightarrow> if p \<noteq> [] then p else path_join (script_dir E) (ustr ''grouping.txt''))"

text \<open>
  \<open>main\<close>: the two checks; \<open>os.getcwd()\<close> and \<open>os.chdir(repo_path)\<close> of lines 66 and 67;
  the loading of the mapping with its two prints, lines 75 to 77, which stand between
  \<open>os.chdir\<close> and \<open>try\<close>; then the \<open>try\<close> block with \<open>os.chdir(original_dir)\<close> in its
  \<open>finally\<close> clause.
\<close>

definition main :: "unicodedata \<Rightarrow> env \<Rightarrow> ustring \<Rightarrow> ustring option \<Rightarrow> unit action" where
  "main U E repo_path grouping_file w =
     (if \<not> isdir E (cwd w) repo_path then (Inl (ValueError_not_a_directory repo_path), w)
      else if \<not> isdir E (cwd w) (path_join repo_path (ustr ''.git''))
        then (Inl (ValueError_not_a_repository repo_path), w)
      else
        and_then (getcwd E) (\<lambda>original_dir.
        and_then (chdir E repo_path) (\<lambda>_.
        and_then (print E (Looking_for_grouping_file (grouping_file_path_of E grouping_file))) (\<lambda>_.
        and_then (load_grouping_mapping U E (grouping_file_path_of E grouping_file))
          (\<lambda>group_mapping.
        and_then (print E (Loaded_mappings (length group_mapping))) (\<lambda>_.
        try_finally (main_try U E group_mapping) (chdir E original_dir)))))) w)"




section \<open>Example runs\<close>

text \<open>
  A repository \<open>repo\<close> with four tracked files: \<open>a.py\<close> has two lines by \<open>Jane Doe\<close> and
  one by an author with an empty name, blame fails on \<open>b.bin\<close>, prints nothing for
  \<open>c.txt\<close> and cannot be started for \<open>d\<close>. \<open>broken\<close> has a \<open>.git\<close> directory, but
  \<open>git ls-files\<close> fails there; in \<open>nogit\<close> the command cannot be started; \<open>plain\<close> is a
  directory without \<open>.git\<close>. No library call raises.
\<close>

definition example_blame :: ustring where
  "example_blame =
     ustr ''author Jane Doe'' @ [10] @ [9] @ ustr ''x = 1'' @ [10] @
     ustr ''author Jane Doe'' @ [10] @ [9] @ ustr ''y = 2'' @ [10] @
     ustr ''author '' @ [10] @ [9] @ ustr ''z = 3'' @ [10]"

text \<open>
  Two more blame outputs: the four lines of the specification's example, and an output
  whose third line is the content line \<open>\tplan\<close>, a form feed and \<open>author Eve\<close>.
\<close>

definition jane_blame :: ustring where
  "jane_blame =
     ustr ''abcd123 1 1 1'' @ [10] @ ustr ''author Jane Doe'' @ [10] @
     [9] @ ustr ''println()'' @ [10] @ ustr ''author-mail <jane@x.com>'' @ [10]"

definition form_feed_blame :: ustring where
  "form_feed_blame =
     ustr ''abcd123 1 1 1'' @ [10] @ ustr ''author Jane Doe'' @ [10] @
     [9] @ ustr ''plan'' @ [12] @ ustr ''author Eve'' @ [10]"

definition example_env :: env where
  "example_env =
     \<lparr> isdir = (\<lambda>dir p. p = ustr ''repo'' \<or> p = ustr ''repo/.git'' \<or> p = ustr ''broken'' \<or>
                        p = ustr ''broken/.git'' \<or> p = ustr ''nogit'' \<or>
                        p = ustr ''nogit/.git'' \<or> p = ustr ''plain''),
       read_file = (\<lambda>dir p.
          if p = ustr ''groups.txt'' then Opens [Line (ustr ''Jane: jane doe, J. Doe'' @ [10])]
          else if p = ustr ''locked.txt'' then Open_raises
          else if p = ustr ''torn.txt''
            then Opens [Line (ustr ''Jane: jane doe'' @ [10]), Read_raises]
          else Not_a_file),
       script_dir = ustr ''/opt/tool'',
       git_ls_files = (\<lambda>dir.
          if dir = ustr ''repo''
          then Completed 0 (ustr ''a.py'' @ [10] @ ustr ''b.bin'' @ [10] @ ustr ''c.txt'' @ [10] @
                            ustr ''d'' @ [10]) []
          else if dir = ustr ''nogit'' then Run_raises
          else Completed 128 [] (ustr ''fatal'')),
       git_blame = (\<lambda>dir file_path.
          if dir = ustr ''repo'' \<and> file_path = ustr ''a.py'' then Completed 0 example_blame []
          else if file_path = ustr ''b.bin'' then Completed 128 [] (ustr ''fatal'')
          else if file_path = ustr ''c.txt'' then Completed 0 [10] []
          else if file_path = ustr ''jane.txt'' then Completed 0 jane_blame []
          else if file_path = ustr ''notes.txt'' then Completed 0 form_feed_blame []
          else Run_raises),
       getcwd_raises = (\<lambda>dir. False),
       chdir_raises = (\<lambda>dir path. False),
       print_raises = (\<lambda>m. False),
       table_raises = (\<lambda>rows. False),
       tie_rank = (\<lambda>row. 0),
       plot_raises = (\<lambda>rows. False) \<rparr>"

definition example_world :: world where
  "example_world = \<lparr> cwd = ustr ''/home/u'', console = [], figures = [] \<rparr>"

text \<open>
  The same environment with a console that encodes ASCII only, so that printing a path
  with another character raises \<open>UnicodeEncodeError\<close>; and a path with the letter U+00E9 in it
  (\<open>cafe.txt\<close> with an accent on the last letter), which names no file.
\<close>

definition ascii_console_env :: env where
  "ascii_console_env =
     example_env\<lparr>print_raises := (\<lambda>m.
        case m of
          Looking_for_grouping_file p \<Rightarrow> \<not> is_ascii p
        | Grouping_file_not_found p \<Rightarrow> \<not> is_ascii p
        | Failed_to_open_grouping_file p \<Rightarrow> \<not> is_ascii p
        | Processing_file i n p \<Rightarrow> \<not> is_ascii p
        | Lines_per_author rows \<Rightarrow> \<not> list_all (\<lambda>row. is_ascii (fst row)) rows
        | _ \<Rightarrow> False)\<rparr>"

definition cafe_txt :: ustring where
  "cafe_txt = [99, 97, 102, 233, 46, 116, 120, 116]"

text \<open>
  The same environment where the one line of \<open>a.py\<close> is by an author whose name is
  a dollar sign, a backslash, \<open>foo\<close> and a dollar sign, and where matplotlib raises on a label
  with that name, which it reads as mathematical text that does not parse.
\<close>

definition dollar_foo :: ustring where
  "dollar_foo = [36, 92, 102, 111, 111, 36]"

definition mathtext_env :: env where
  "mathtext_env =
     example_env\<lparr>
       git_blame := (\<lambda>dir file_path.
          if file_path = ustr ''a.py''
          then Completed 0 (ustr ''author '' @ dollar_foo @ [10] @ [9] @ ustr ''x = 1'' @ [10]) []
          else git_blame example_env dir file_path),
       plot_raises := (\<lambda>rows. list_ex (\<lambda>row. fst row = dollar_foo) rows)\<rparr>"

section \<open>Properties of the string operations\<close>

lemma dropWhile_keep: "xs = [] \<or> \<not> P (hd xs) \<Longrightarrow> dropWhile P xs = xs"
  by (cases xs) auto

lemma dropWhile_hd: "dropWhile P xs \<noteq> [] \<Longrightarrow> \<not> P (hd (dropWhile P xs))"
  by (simp add: hd_dropWhile)

lemma strip_unchanged:
  assumes "s = [] \<or> (\<not> isspace (hd s) \<and> \<not> isspace (last s))"
  shows "strip s = s"
proof -
  have "dropWhile isspace s = s" using assms by (intro dropWhile_keep) auto
  moreover have "dropWhile isspace (rev s) = rev s"
    using assms by (intro dropWhile_keep) (auto simp: hd_rev)
  ultimately show ?thesis by (simp add: strip_def)
qed

lemma strip_all_space: "list_all isspace s \<Longrightarrow> strip s = []"
proof -
  assume "list_all isspace s"
  then have h: "dropWhile isspace s = []" by (simp add: list_all_iff)
  show ?thesis by (simp only: strip_def h rev.simps dropWhile.simps)
qed

lemma strip_padding_left:
  assumes "list_all isspace l"
  shows "strip (l @ s) = strip s"
proof -
  have "dropWhile isspace (l @ s) = dropWhile isspace s"
    by (rule dropWhile_append2) (use assms in \<open>simp add: list_all_iff\<close>)
  then show ?thesis by (simp add: strip_def)
qed

lemma strip_padding_right:
  assumes "list_all isspace r"
  shows "strip (s @ r) = strip s"
proof (cases "list_all isspace s")
  case True
  then have "list_all isspace (s @ r)" using assms by simp
  then show ?thesis using True by (simp only: strip_all_space)
next
  case False
  then obtain x where "x \<in> set s" "\<not> isspace x" by (auto simp: list_all_iff)
  then have "dropWhile isspace (s @ r) = dropWhile isspace s @ r"
    by (rule dropWhile_append1)
  moreover have "dropWhile isspace (rev r @ t) = dropWhile isspace t" for t
    by (rule dropWhile_append2) (use assms in \<open>simp add: list_all_iff\<close>)
  ultimately show ?thesis by (simp add: strip_def)
qed

lemma strip_padding:
  "list_all isspace l \<Longrightarrow> list_all isspace r \<Longrightarrow> strip (l @ s @ r) = strip s"
  by (simp add: strip_padding_left strip_padding_right)

lemma isspace_ascii_lower: "isspace (ascii_lower c) = isspace c"
  by (auto simp: isspace_def ascii_lower_def)

lemma ascii_lower_idem: "ascii_lower (ascii_lower c) = ascii_lower c"
  by (simp add: ascii_lower_def)

lemma strip_map:
  assumes "\<And>c. isspace (f c) = isspace c"
  shows "strip (map f s) = map f (strip s)"
proof -
  have "isspace \<circ> f = isspace" using assms by (simp add: fun_eq_iff)
  then show ?thesis by (simp add: strip_def dropWhile_map rev_map)
qed

lemma strip_ends:
  "strip s = [] \<or> (\<not> isspace (hd (strip s)) \<and> \<not> isspace (last (strip s)))"
  by (metis append_is_Nil_conv dropWhile_hd last_appendR last_rev
    rev.simps(1) rev_rev_ident strip_def takeWhile_dropWhile_id)

lemma strip_strip: "strip (strip s) = strip s"
  by (rule strip_unchanged) (rule strip_ends)

lemma set_strip: "set (strip s) \<subseteq> set s"
proof -
  have "set (dropWhile isspace (rev (dropWhile isspace s))) \<subseteq> set (rev (dropWhile isspace s))"
    by (auto dest: set_dropWhileD)
  also have "\<dots> \<subseteq> set s" by (auto dest: set_dropWhileD)
  finally show ?thesis by (simp add: strip_def)
qed

lemma is_ascii_strip: "is_ascii s \<Longrightarrow> is_ascii (strip s)"
  using set_strip [of s] by (auto simp: is_ascii_def list_all_iff)

lemma is_ascii_lower: "is_ascii s \<Longrightarrow> is_ascii (map ascii_lower s)"
  by (auto simp: is_ascii_def list_all_iff ascii_lower_def)

lemma normalize_name_ascii:
  "is_ascii s \<Longrightarrow> normalize_name U s = map ascii_lower (strip s)"
  by (simp add: normalize_name_def lower_def normalize_NFKC_def is_ascii_strip is_ascii_lower)

lemma is_ascii_normalize_name: "is_ascii s \<Longrightarrow> is_ascii (normalize_name U s)"
  by (simp add: normalize_name_ascii is_ascii_strip is_ascii_lower)

section \<open>Name normalization\<close>

text \<open>
  On strings of ASCII characters \<open>normalize_name\<close> is idempotent, and on every string it
  ignores the whitespace around the name; this holds whatever the Unicode tables say.
\<close>

lemma normalize_name_on_ascii:
  "(is_ascii s \<longrightarrow> normalize_name U (normalize_name U s) = normalize_name U s) \<and>
   (list_all isspace l \<and> list_all isspace r \<longrightarrow>
      normalize_name U (l @ s @ r) = normalize_name U s) \<and>
   normalize_name U (ustr '' Jane '') = normalize_name U (ustr ''Jane'') \<and>
   normalize_name U (ustr ''Jane'') = normalize_name U (ustr ''jane'')"
proof (intro conjI impI)
  assume a: "is_ascii s"
  have "normalize_name U (normalize_name U s) = map ascii_lower (strip (map ascii_lower (strip s)))"
    using a by (simp add: normalize_name_ascii is_ascii_strip is_ascii_lower)
  also have "\<dots> = map ascii_lower (strip s)"
    by (simp add: strip_map isspace_ascii_lower strip_strip ascii_lower_idem)
  finally show "normalize_name U (normalize_name U s) = normalize_name U s"
    using a by (simp add: normalize_name_ascii)
next
  assume "list_all isspace l \<and> list_all isspace r"
  then show "normalize_name U (l @ s @ r) = normalize_name U s"
    by (simp add: normalize_name_def strip_padding)
next
  show "normalize_name U (ustr '' Jane '') = normalize_name U (ustr ''Jane'')"
    by (simp add: normalize_name_def strip_def isspace_def ustr_def)
next
  show "normalize_name U (ustr ''Jane'') = normalize_name U (ustr ''jane'')"
    by (simp add: normalize_name_def normalize_NFKC_def lower_def strip_def isspace_def
        is_ascii_def ustr_def ascii_lower_def)
qed


section \<open>Properties of the dictionary operations\<close>

lemma map_of_dict_set: "map_of (dict_set d k v) = (map_of d)(k \<mapsto> v)"
  by (induction d) (auto simp: fun_eq_iff)

lemma keys_dict_set: "fst ` set (dict_set d k v) = insert k (fst ` set d)"
  by (induction d k v rule: dict_set.induct) (simp_all add: insert_commute)

lemma distinct_dict_set: "distinct (map fst d) \<Longrightarrow> distinct (map fst (dict_set d k v))"
  by (induction d) (auto simp: keys_dict_set)

lemma dict_get_dict_set:
  "dict_get (dict_set d k v) k' dflt = (if k' = k then v else dict_get d k' dflt)"
  by (simp add: dict_get_def map_of_dict_set)

lemma dict_get_dict_add:
  "dict_get (dict_add d k n) k' 0 = (if k' = k then dict_get d k 0 + n else dict_get d k' 0)"
  by (simp add: dict_add_def dict_get_dict_set)

lemma map_of_dict_add_other: "k' \<noteq> k \<Longrightarrow> map_of (dict_add d k n) k' = map_of d k'"
  by (simp add: dict_add_def map_of_dict_set)

lemma keys_dict_add: "fst ` set (dict_add d k n) = insert k (fst ` set d)"
  by (simp add: dict_add_def keys_dict_set)

lemma distinct_dict_add: "distinct (map fst d) \<Longrightarrow> distinct (map fst (dict_add d k n))"
  by (simp add: dict_add_def distinct_dict_set)

lemma sum_dict_add: "sum_list (map snd (dict_add d k n)) = sum_list (map snd d) + n"
  unfolding dict_add_def dict_get_def
  by (induction d) auto


subsection \<open>Accumulating counts under a renaming of the keys\<close>

lemma fold_dict_add_sum:
  "sum_list (map snd (fold (\<lambda>(a, c) g. dict_add g (f a) c) ac g0))
     = sum_list (map snd g0) + sum_list (map snd ac)"
  by (induction ac arbitrary: g0) (auto simp: sum_dict_add)

lemma fold_dict_add_keys:
  "fst ` set (fold (\<lambda>(a, c) g. dict_add g (f a) c) ac g0) = fst ` set g0 \<union> f ` fst ` set ac"
  by (induction ac arbitrary: g0) (simp_all add: keys_dict_add split_beta)

lemma fold_dict_add_distinct:
  "distinct (map fst g0) \<Longrightarrow> distinct (map fst (fold (\<lambda>(a, c) g. dict_add g (f a) c) ac g0))"
  by (induction ac arbitrary: g0) (auto simp: distinct_dict_add)

lemma fold_dict_add_get:
  "dict_get (fold (\<lambda>(a, c) g. dict_add g (f a) c) ac g0) x 0
     = dict_get g0 x 0 + sum_list [c. (a, c) \<leftarrow> ac, f a = x]"
  by (induction ac arbitrary: g0) (auto simp: dict_get_dict_add)



section \<open>Grouping the counts\<close>

text \<open>
  Claim C1. For every author counts and every alias mapping, the grouped counts sum to
  the same total as the author counts; the keys of the grouped counts are the groups of
  the authors, one entry per group; and the count of a group is the sum of the counts of
  the authors whose group it is, where the group of an author is the name the mapping
  gives to the normalized author, and the raw author string when it gives none. So every
  author is counted under exactly one key.
\<close>

theorem grouped_counts_sum:
  "sum_list (map snd (grouped_counts U group_mapping author_counts))
     = sum_list (map snd author_counts) \<and>
   fst ` set (grouped_counts U group_mapping author_counts)
     = group_of U group_mapping ` fst ` set author_counts \<and>
   distinct (map fst (grouped_counts U group_mapping author_counts)) \<and>
   (\<forall>g. dict_get (grouped_counts U group_mapping author_counts) g 0
        = sum_list [c. (a, c) \<leftarrow> author_counts, group_of U group_mapping a = g]) \<and>
   (\<forall>a. group_of U group_mapping a =
        (case map_of group_mapping (normalize_name U a) of Some g \<Rightarrow> g | None \<Rightarrow> a))"
proof (intro conjI allI)
  show "sum_list (map snd (grouped_counts U group_mapping author_counts))
     = sum_list (map snd author_counts)"
    by (simp add: grouped_counts_def fold_dict_add_sum)
  show "fst ` set (grouped_counts U group_mapping author_counts)
     = group_of U group_mapping ` fst ` set author_counts"
    by (simp add: grouped_counts_def fold_dict_add_keys)
  show "distinct (map fst (grouped_counts U group_mapping author_counts))"
    by (simp add: grouped_counts_def fold_dict_add_distinct)
  show "dict_get (grouped_counts U group_mapping author_counts) g 0
        = sum_list [c. (a, c) \<leftarrow> author_counts, group_of U group_mapping a = g]" for g
    by (simp add: grouped_counts_def fold_dict_add_get) (simp add: dict_get_def)
  show "group_of U group_mapping a =
        (case map_of group_mapping (normalize_name U a) of Some g \<Rightarrow> g | None \<Rightarrow> a)" for a
    by (simp add: group_of_def dict_get_def)
qed

theorem grouped_counts_sum_witness:
  "sum_list (map snd (grouped_counts unicode_excerpt
      [(ustr ''jane doe'', ustr ''Jane''), (ustr ''j. doe'', ustr ''Jane'')]
      [(ustr ''Jane Doe'', 5), (ustr ''Bob'', 2), (ustr ''J. Doe '', 3)])) = 10 \<and>
   grouped_counts unicode_excerpt
      [(ustr ''jane doe'', ustr ''Jane''), (ustr ''j. doe'', ustr ''Jane'')]
      [(ustr ''Jane Doe'', 5), (ustr ''Bob'', 2), (ustr ''J. Doe '', 3)]
     = [(ustr ''Jane'', 8), (ustr ''Bob'', 2)]"
  using grouped_counts_sum [of unicode_excerpt
      "[(ustr ''jane doe'', ustr ''Jane''), (ustr ''j. doe'', ustr ''Jane'')]"
      "[(ustr ''Jane Doe'', 5), (ustr ''Bob'', 2), (ustr ''J. Doe '', 3)]"]
  by (simp add: grouped_counts_def group_of_def dict_get_def dict_add_def normalize_name_def
      normalize_NFKC_def lower_def strip_def isspace_def is_ascii_def ascii_lower_def ustr_def)

section \<open>Parsing the blame output\<close>

lemma count_line_tab: "startswith line [9] \<Longrightarrow> count_line ac line = ac"
  by (simp add: count_line_def)

lemma count_line_other: "\<not> startswith line (ustr ''author '') \<Longrightarrow> count_line ac line = ac"
  by (simp add: count_line_def)

lemma startswith_hd: "startswith s p \<Longrightarrow> p \<noteq> [] \<Longrightarrow> s \<noteq> [] \<and> hd s = hd p"
  by (cases s; cases p) (auto simp: startswith_def)

lemma author_not_tab: "startswith line (ustr ''author '') \<Longrightarrow> \<not> startswith line [9]"
  by (auto dest!: startswith_hd simp: ustr_def)

lemma count_line_author:
  "startswith line (ustr ''author '') \<Longrightarrow>
     count_line ac line = dict_add ac (strip (drop (length (ustr ''author '')) line)) 1"
  by (simp add: count_line_def author_not_tab)

text \<open>
  One piece that \<open>splitlines\<close> cuts from the output: a piece that begins with a tab or
  does not begin with \<open>author \<close> leaves the counts as they are, and a piece that begins
  with \<open>author \<close> adds one to the count of the trimmed rest and changes no other entry.
\<close>

lemma count_line_cases:
  "(startswith line [9] \<longrightarrow> count_line author_counts line = author_counts) \<and>
   (\<not> startswith line (ustr ''author '') \<longrightarrow> count_line author_counts line = author_counts) \<and>
   (startswith line (ustr ''author '') \<longrightarrow>
      count_line author_counts line
        = dict_add author_counts (strip (drop (length (ustr ''author '')) line)) 1) \<and>
   (\<forall>a. dict_get (dict_add author_counts a 1) a 0 = dict_get author_counts a 0 + 1) \<and>
   (\<forall>a b. b \<noteq> a \<longrightarrow> map_of (dict_add author_counts a 1) b = map_of author_counts b) \<and>
   \<not> startswith (ustr ''author-mail <jane@x.com>'') (ustr ''author '') \<and>
   \<not> startswith (ustr ''author-time 1700000000'') (ustr ''author '') \<and>
   \<not> startswith (ustr ''abcd123 1 1 1'') (ustr ''author '') \<and>
   \<not> startswith (ustr ''summary fix'') (ustr ''author '') \<and>
   splitlines (ustr ''abcd123 1 1 1'' @ [10] @ ustr ''author Jane Doe'' @ [10] @
               [9] @ ustr ''println()'' @ [10] @ ustr ''author-mail <jane@x.com>'' @ [10])
     = [ustr ''abcd123 1 1 1'', ustr ''author Jane Doe'', [9] @ ustr ''println()'',
        ustr ''author-mail <jane@x.com>''] \<and>
   fold (\<lambda>line counts. count_line counts line)
     [ustr ''abcd123 1 1 1'', ustr ''author Jane Doe'', [9] @ ustr ''println()'',
      ustr ''author-mail <jane@x.com>''] author_counts
     = dict_add author_counts (ustr ''Jane Doe'') 1"
proof (intro conjI impI allI)
  show "splitlines (ustr ''abcd123 1 1 1'' @ [10] @ ustr ''author Jane Doe'' @ [10] @
               [9] @ ustr ''println()'' @ [10] @ ustr ''author-mail <jane@x.com>'' @ [10])
     = [ustr ''abcd123 1 1 1'', ustr ''author Jane Doe'', [9] @ ustr ''println()'',
        ustr ''author-mail <jane@x.com>'']"
    by (simp add: splitlines_def ustr_def is_linebreak_def)
  show "fold (\<lambda>line counts. count_line counts line)
     [ustr ''abcd123 1 1 1'', ustr ''author Jane Doe'', [9] @ ustr ''println()'',
      ustr ''author-mail <jane@x.com>''] author_counts
     = dict_add author_counts (ustr ''Jane Doe'') 1"
    by (simp add: count_line_def startswith_def ustr_def strip_def isspace_def)
qed (simp_all add: count_line_tab count_line_other count_line_author dict_get_dict_add
       map_of_dict_add_other, simp_all add: startswith_def ustr_def)


section \<open>Loading the grouping file\<close>

lemmas string_defs = ustr_def strip_def isspace_def startswith_def is_ascii_def ascii_lower_def
  lower_def normalize_NFKC_def normalize_name_def split_once_def

lemma fold_dict_set_map_of:
  "map_of (fold (\<lambda>alias m. dict_set m (f alias) g) as m) k
     = (if k \<in> f ` set as then Some g else map_of m k)"
  by (induction as arbitrary: m) (auto simp: map_of_dict_set)

lemma fold_dict_set_distinct:
  "distinct (map fst m) \<Longrightarrow> distinct (map fst (fold (\<lambda>alias m. dict_set m (f alias) g) as m))"
  by (induction as arbitrary: m) (auto simp: distinct_dict_set)

lemma register_line_override:
  "map_of (register_line U m l) = map_of m ++ map_of (register_line U [] l)"
  by (rule ext)
     (simp add: register_line_def Let_def split_beta fold_dict_set_map_of map_add_def)

lemma register_line_distinct:
  "distinct (map fst m) \<Longrightarrow> distinct (map fst (register_line U m l))"
  by (simp add: register_line_def Let_def split_beta fold_dict_set_distinct)

lemma read_lines_distinct:
  "distinct (map fst m) \<Longrightarrow> read_lines U m es = Some m' \<Longrightarrow> distinct (map fst m')"
  by (induction U m es rule: read_lines.induct) (auto simp: register_line_distinct)

lemma read_lines_append:
  "read_lines U m (es @ es') = (case read_lines U m es of None \<Rightarrow> None | Some m' \<Rightarrow> read_lines U m' es')"
  by (induction U m es rule: read_lines.induct) auto

lemma read_lines_unregistered:
  "read_lines U m es = Some m' \<Longrightarrow>
   (\<And>l. Line l \<in> set es \<Longrightarrow> map_of (register_line U [] l) k = None) \<Longrightarrow>
   map_of m' k = map_of m k"
proof (induction U m es rule: read_lines.induct)
  case (3 U mapping l es)
  have "map_of m' k = map_of (register_line U mapping l) k"
    using 3 by simp
  also have "\<dots> = map_of mapping k"
    using "3.prems"(2) [of l] by (simp add: register_line_override [of U mapping] map_add_def)
  finally show ?case .
qed auto


lemma dropWhile_snoc_keep: "\<not> P x \<Longrightarrow> \<exists>ys. dropWhile P (xs @ [x]) = ys @ [x]"
  by (induction xs) auto

lemma strip_keeps_first:
  assumes "\<not> isspace c"
  shows "\<exists>t'. strip (c # t) = c # t'"
proof -
  have "dropWhile isspace (c # t) = c # t" using assms by simp
  moreover obtain ys where "dropWhile isspace (rev t @ [c]) = ys @ [c]"
    using dropWhile_snoc_keep [of isspace c "rev t"] assms by blast
  ultimately show ?thesis by (simp add: strip_def)
qed

lemma startswith_hash_strip:
  "startswith raw (ustr ''#'') \<Longrightarrow> startswith (strip raw) (ustr ''#'')"
proof -
  assume "startswith raw (ustr ''#'')"
  then obtain t where raw: "raw = 35 # t"
    by (cases raw) (auto simp: startswith_def ustr_def)
  have "\<not> isspace 35" by (simp add: isspace_def)
  from strip_keeps_first [OF this, of t] raw show ?thesis
    by (auto simp: startswith_def ustr_def)
qed

lemma register_line_skipped:
  "list_all isspace raw \<or> startswith raw (ustr ''#'') \<or> startswith (strip raw) (ustr ''#'')
     \<or> 58 \<notin> set raw \<or> 58 \<notin> set (strip raw) \<Longrightarrow> register_line U m raw = m"
  using set_strip [of raw]
  by (auto simp: register_line_def Let_def strip_all_space startswith_hash_strip)

lemma split_once_colon:
  "58 \<notin> set g \<Longrightarrow> split_once 58 (g @ [58] @ rest) = (g, rest)"
proof -
  assume a: "58 \<notin> set g"
  have "takeWhile (\<lambda>c. c \<noteq> 58) (g @ 58 # rest) = g"
    by (rule takeWhile_tail[THEN trans]) (use a in \<open>auto simp: takeWhile_eq_all_conv\<close>)
  moreover have "dropWhile (\<lambda>c. c \<noteq> 58) (g @ 58 # rest) = 58 # rest"
    using a by (subst dropWhile_append2) auto
  ultimately show ?thesis by (simp add: split_once_def)
qed

lemma register_line_valid:
  assumes "strip raw = g @ [58] @ rest" and "58 \<notin> set g"
    and "\<not> startswith (strip raw) (ustr ''#'')"
  shows "map_of (register_line U m raw) k
    = (if k \<in> normalize_name U ` {a. a \<noteq> [] \<and> a \<in> strip ` set (split_on 44 rest)}
       then Some (strip g) else map_of m k)"
proof -
  have "register_line U m raw
      = fold (\<lambda>alias m. dict_set m (normalize_name U alias) (strip g))
          [strip alias. alias \<leftarrow> split_on 44 rest, strip alias \<noteq> []] m"
    using assms split_once_colon [OF assms(2), of rest]
    by (simp add: register_line_def Let_def)
  moreover have "set [strip alias. alias \<leftarrow> split_on 44 rest, strip alias \<noteq> []]
      = {a. a \<noteq> [] \<and> a \<in> strip ` set (split_on 44 rest)}"
    by auto
  ultimately show ?thesis by (simp only: fold_dict_set_map_of)
qed

text \<open>
  Claim C6. The entries a line registers override the entries of the mapping built so
  far and leave the others as they are, so the group of a key is the group of the last
  line that registers it; the loaded mapping holds one entry per normalized alias. For
  the lines \<open>A: x, y\<close> and \<open>B: x\<close> the normalized \<open>x\<close> resolves to \<open>B\<close>.
\<close>

theorem later_line_wins:
  "map_of (register_line U mapping line) = map_of mapping ++ map_of (register_line U [] line) \<and>
   (read_lines U mapping0 (es1 @ [Line line] @ es2) = Some mapping' \<and>
    map_of (register_line U [] line) k = Some g \<and>
    list_all (\<lambda>e. case e of Line l \<Rightarrow> map_of (register_line U [] l) k = None
                          | Read_raises \<Rightarrow> True) es2
      \<longrightarrow> map_of mapping' k = Some g) \<and>
   (read_lines U [] es = Some loaded \<longrightarrow> distinct (map fst loaded)) \<and>
   read_lines U [] [Line (ustr ''A: x, y'' @ [10]), Line (ustr ''B: x'' @ [10])]
     = Some [(ustr ''x'', ustr ''B''), (ustr ''y'', ustr ''A'')] \<and>
   dict_get [(ustr ''x'', ustr ''B''), (ustr ''y'', ustr ''A'')] (normalize_name U (ustr ''x'')) []
     = ustr ''B''"
proof (intro conjI impI)
  show "map_of (register_line U mapping line)
      = map_of mapping ++ map_of (register_line U [] line)"
    by (rule register_line_override)
next
  assume a: "read_lines U mapping0 (es1 @ [Line line] @ es2) = Some mapping' \<and>
    map_of (register_line U [] line) k = Some g \<and>
    list_all (\<lambda>e. case e of Line l \<Rightarrow> map_of (register_line U [] l) k = None
                          | Read_raises \<Rightarrow> True) es2"
  then obtain m1 where m1: "read_lines U mapping0 es1 = Some m1"
    and rest: "read_lines U (register_line U m1 line) es2 = Some mapping'"
    by (auto simp: read_lines_append split: option.splits)
  have "map_of mapping' k = map_of (register_line U m1 line) k"
  proof (rule read_lines_unregistered [OF rest])
    fix l assume "Line l \<in> set es2"
    with a show "map_of (register_line U [] l) k = None"
      by (auto simp: list_all_iff)
  qed
  also have "\<dots> = Some g"
    using a by (simp add: register_line_override [of U m1] map_add_def)
  finally show "map_of mapping' k = Some g" .
next
  assume "read_lines U [] es = Some loaded"
  then show "distinct (map fst loaded)"
    using read_lines_distinct [of "[]" U es loaded] by simp
next
  show "read_lines U [] [Line (ustr ''A: x, y'' @ [10]), Line (ustr ''B: x'' @ [10])]
     = Some [(ustr ''x'', ustr ''B''), (ustr ''y'', ustr ''A'')]"
    by (simp add: register_line_def Let_def split_once_def strip_def isspace_def
        startswith_def ustr_def normalize_name_def normalize_NFKC_def lower_def is_ascii_def
        ascii_lower_def)
next
  show "dict_get [(ustr ''x'', ustr ''B''), (ustr ''y'', ustr ''A'')]
      (normalize_name U (ustr ''x'')) [] = ustr ''B''"
    by (simp add: dict_get_def strip_def isspace_def ustr_def normalize_name_def
        normalize_NFKC_def lower_def is_ascii_def ascii_lower_def)
qed

theorem later_line_wins_witness:
  "read_lines unicode_excerpt [(ustr ''z'', ustr ''C'')]
      ([Line (ustr ''A: x, y'')] @ [Line (ustr ''B: X '')] @ [Line (ustr ''C: y'')])
     = Some [(ustr ''z'', ustr ''C''), (ustr ''x'', ustr ''B''), (ustr ''y'', ustr ''C'')] \<and>
   map_of (register_line unicode_excerpt [] (ustr ''B: X '')) (ustr ''x'') = Some (ustr ''B'') \<and>
   list_all (\<lambda>e. case e of
        Line l \<Rightarrow> map_of (register_line unicode_excerpt [] l) (ustr ''x'') = None
      | Read_raises \<Rightarrow> True) [Line (ustr ''C: y'')] \<and>
   map_of [(ustr ''z'', ustr ''C''), (ustr ''x'', ustr ''B''), (ustr ''y'', ustr ''C'')] (ustr ''x'')
     = Some (ustr ''B'') \<and>
   distinct (map fst [(ustr ''x'', ustr ''B'')])"
proof -
  have run: "read_lines unicode_excerpt [(ustr ''z'', ustr ''C'')]
      ([Line (ustr ''A: x, y'')] @ [Line (ustr ''B: X '')] @ [Line (ustr ''C: y'')])
     = Some [(ustr ''z'', ustr ''C''), (ustr ''x'', ustr ''B''), (ustr ''y'', ustr ''C'')]"
    by (simp add: register_line_def Let_def string_defs)
  have reg: "map_of (register_line unicode_excerpt [] (ustr ''B: X '')) (ustr ''x'')
      = Some (ustr ''B'')"
    by (simp add: register_line_def Let_def string_defs)
  have later: "list_all (\<lambda>e. case e of
        Line l \<Rightarrow> map_of (register_line unicode_excerpt [] l) (ustr ''x'') = None
      | Read_raises \<Rightarrow> True) [Line (ustr ''C: y'')]"
    by (simp add: register_line_def Let_def string_defs)
  have fresh: "read_lines unicode_excerpt [] [Line (ustr ''B: X '')]
     = Some [(ustr ''x'', ustr ''B'')]"
    by (simp add: register_line_def Let_def string_defs)
  note inst = later_line_wins [of unicode_excerpt "[]" "ustr ''B: X ''"
      "[(ustr ''z'', ustr ''C'')]" "[Line (ustr ''A: x, y'')]" "[Line (ustr ''C: y'')]"
      "[(ustr ''z'', ustr ''C''), (ustr ''x'', ustr ''B''), (ustr ''y'', ustr ''C'')]"
      "ustr ''x''" "ustr ''B''" "[Line (ustr ''B: X '')]" "[(ustr ''x'', ustr ''B'')]"]
  have won: "map_of [(ustr ''z'', ustr ''C''), (ustr ''x'', ustr ''B''), (ustr ''y'', ustr ''C'')]
      (ustr ''x'') = Some (ustr ''B'')"
    by (rule inst [THEN conjunct2, THEN conjunct1, THEN mp]) (intro conjI run reg later)
  have one: "distinct (map fst [(ustr ''x'', ustr ''B'')])"
    by (rule inst [THEN conjunct2, THEN conjunct2, THEN conjunct1, THEN mp]) (rule fresh)
  show ?thesis by (intro conjI) (fact run reg later won one)+
qed

text \<open>
  Claim C9. A blank line, a line that starts with \<open>#\<close> and a line without \<open>:\<close>, such as
  \<open>NoColonHere\<close>, leave the mapping as it is. A valid line maps the normalized form of
  every alias that is not empty after trimming to the trimmed group name, and changes no
  other entry; an empty alias registers nothing.
\<close>

theorem skipped_lines_leave_mapping:
  "(list_all isspace raw \<or> startswith raw (ustr ''#'') \<or> 58 \<notin> set raw
      \<longrightarrow> register_line U mapping raw = mapping) \<and>
   register_line U mapping (ustr ''NoColonHere'') = mapping \<and>
   (strip raw = group_name @ [58] @ rest \<and> 58 \<notin> set group_name \<and> \<not> startswith (strip raw) (ustr ''#'')
      \<longrightarrow> (\<forall>k. map_of (register_line U mapping raw) k
            = (if k \<in> normalize_name U ` {a. a \<noteq> [] \<and> a \<in> strip ` set (split_on 44 rest)}
               then Some (strip group_name) else map_of mapping k))) \<and>
   register_line U [] (ustr ''Team:  alice , ,Bob,  '')
     = [(ustr ''alice'', ustr ''Team''), (ustr ''bob'', ustr ''Team'')]"
proof (intro conjI impI allI)
  assume "list_all isspace raw \<or> startswith raw (ustr ''#'') \<or> 58 \<notin> set raw"
  then show "register_line U mapping raw = mapping"
    by (intro register_line_skipped) blast
next
  have "58 \<notin> set (ustr ''NoColonHere'')" by (simp add: ustr_def)
  then show "register_line U mapping (ustr ''NoColonHere'') = mapping"
    by (intro register_line_skipped) blast
next
  fix k
  assume "strip raw = group_name @ [58] @ rest \<and> 58 \<notin> set group_name \<and>
    \<not> startswith (strip raw) (ustr ''#'')"
  then show "map_of (register_line U mapping raw) k
            = (if k \<in> normalize_name U ` {a. a \<noteq> [] \<and> a \<in> strip ` set (split_on 44 rest)}
               then Some (strip group_name) else map_of mapping k)"
    by (intro register_line_valid) auto
next
  show "register_line U [] (ustr ''Team:  alice , ,Bob,  '')
     = [(ustr ''alice'', ustr ''Team''), (ustr ''bob'', ustr ''Team'')]"
    by (simp add: register_line_def Let_def split_once_def strip_def isspace_def
        startswith_def ustr_def normalize_name_def normalize_NFKC_def lower_def is_ascii_def
        ascii_lower_def)
qed

theorem skipped_lines_leave_mapping_witness:
  "list_all isspace [32, 9, 10] \<and>
   register_line unicode_excerpt [(ustr ''x'', ustr ''A'')] [32, 9, 10] = [(ustr ''x'', ustr ''A'')] \<and>
   startswith (ustr ''# Team: x'') (ustr ''#'') \<and>
   register_line unicode_excerpt [(ustr ''x'', ustr ''A'')] (ustr ''# Team: x'')
     = [(ustr ''x'', ustr ''A'')] \<and>
   58 \<notin> set (ustr ''Team x, y'') \<and>
   register_line unicode_excerpt [(ustr ''x'', ustr ''A'')] (ustr ''Team x, y'')
     = [(ustr ''x'', ustr ''A'')] \<and>
   strip (ustr '' Team : x,, Y '' @ [10]) = ustr ''Team '' @ [58] @ ustr '' x,, Y'' \<and>
   58 \<notin> set (ustr ''Team '') \<and>
   \<not> startswith (strip (ustr '' Team : x,, Y '' @ [10])) (ustr ''#'') \<and>
   map_of (register_line unicode_excerpt [(ustr ''x'', ustr ''A'')] (ustr '' Team : x,, Y '' @ [10]))
      (ustr ''y'') = Some (ustr ''Team'')"
proof -
  have blank: "list_all isspace [32, 9, 10]" by (simp add: isspace_def)
  have hash: "startswith (ustr ''# Team: x'') (ustr ''#'')" by (simp add: startswith_def ustr_def)
  have form: "strip (ustr '' Team : x,, Y '' @ [10]) = ustr ''Team '' @ [58] @ ustr '' x,, Y''"
    by (simp add: strip_def isspace_def ustr_def)
  have colon: "58 \<notin> set (ustr ''Team '')" by (simp add: ustr_def)
  have nohash: "\<not> startswith (strip (ustr '' Team : x,, Y '' @ [10])) (ustr ''#'')"
    by (simp add: strip_def isspace_def ustr_def startswith_def)
  have pieces: "split_on 44 (ustr '' x,, Y'') = [ustr '' x'', [], ustr '' Y'']"
    by (simp add: ustr_def)
  have mem: "ustr ''Y'' \<in> {a. a \<noteq> [] \<and> a \<in> strip ` set (split_on 44 (ustr '' x,, Y''))}"
    unfolding pieces by (simp add: ustr_def strip_def isspace_def)
  have eq: "ustr ''y'' = normalize_name unicode_excerpt (ustr ''Y'')"
    by (simp add: string_defs)
  have y: "ustr ''y'' \<in> normalize_name unicode_excerpt `
      {a. a \<noteq> [] \<and> a \<in> strip ` set (split_on 44 (ustr '' x,, Y''))}"
    by (rule image_eqI [where f = "normalize_name unicode_excerpt" and x = "ustr ''Y''"])
       (rule eq, rule mem)
  have g: "strip (ustr ''Team '') = ustr ''Team''"
    by (simp add: strip_def isspace_def ustr_def)
  have r1: "register_line unicode_excerpt [(ustr ''x'', ustr ''A'')] [32, 9, 10]
      = [(ustr ''x'', ustr ''A'')]"
    by (rule skipped_lines_leave_mapping [THEN conjunct1, THEN mp]) (rule disjI1, rule blank)
  have r2: "register_line unicode_excerpt [(ustr ''x'', ustr ''A'')] (ustr ''# Team: x'')
      = [(ustr ''x'', ustr ''A'')]"
    by (rule skipped_lines_leave_mapping [THEN conjunct1, THEN mp]) (rule disjI2, rule disjI1, rule hash)
  have plain: "58 \<notin> set (ustr ''Team x, y'')" by (simp add: ustr_def)
  have r4: "register_line unicode_excerpt [(ustr ''x'', ustr ''A'')] (ustr ''Team x, y'')
      = [(ustr ''x'', ustr ''A'')]"
    by (rule skipped_lines_leave_mapping [THEN conjunct1, THEN mp])
       (rule disjI2, rule disjI2, rule plain)
  have "map_of (register_line unicode_excerpt [(ustr ''x'', ustr ''A'')]
          (ustr '' Team : x,, Y '' @ [10])) (ustr ''y'')
      = (if ustr ''y'' \<in> normalize_name unicode_excerpt `
              {a. a \<noteq> [] \<and> a \<in> strip ` set (split_on 44 (ustr '' x,, Y''))}
         then Some (strip (ustr ''Team '')) else map_of [(ustr ''x'', ustr ''A'')] (ustr ''y''))"
    by (rule skipped_lines_leave_mapping [where group_name = "ustr ''Team ''" and rest = "ustr '' x,, Y''",
          THEN conjunct2, THEN conjunct2, THEN conjunct1, THEN mp, THEN spec])
       (intro conjI form colon nohash)
  then have r3: "map_of (register_line unicode_excerpt [(ustr ''x'', ustr ''A'')]
          (ustr '' Team : x,, Y '' @ [10])) (ustr ''y'') = Some (ustr ''Team'')"
    by (simp only: y g if_True)
  show ?thesis by (intro conjI) (fact blank hash plain form colon nohash r1 r2 r3 r4)+
qed

section \<open>The loop over the tracked files\<close>





lemma blame_file_skipped:
  "git_blame E dir f = Run_raises \<or>
   git_blame E dir f = Completed rc out err \<and> (rc \<noteq> 0 \<or> list_all isspace out)
   \<Longrightarrow> blame_file E dir ac f = ac"
  by (auto simp: blame_file_def strip_all_space)

section \<open>The order of the steps of normalize_name\<close>

text \<open>
  Claim C2. \<open>normalize_name\<close> is not idempotent. Line 18 strips and lowers the name
  first and applies NFKC last, so the result can begin with whitespace or hold a capital
  letter: U+00A8 becomes a space and U+0308, and normalizing that again strips the
  space; U+2102 becomes \<open>C\<close>, and normalizing that again gives \<open>c\<close>. In the order of the
  docstring, NFKC first, both inputs are fixed after one application.
\<close>

theorem normalize_name_not_idempotent:
  "normalize_name unicode_excerpt [168] = [32, 776] \<and>
   normalize_name unicode_excerpt (normalize_name unicode_excerpt [168]) = [776] \<and>
   normalize_name unicode_excerpt (normalize_name unicode_excerpt [168])
     \<noteq> normalize_name unicode_excerpt [168] \<and>
   normalize_name unicode_excerpt [8450] = ustr ''C'' \<and>
   normalize_name unicode_excerpt (normalize_name unicode_excerpt [8450]) = ustr ''c'' \<and>
   normalize_name_as_documented unicode_excerpt [168] = [776] \<and>
   normalize_name_as_documented unicode_excerpt
       (normalize_name_as_documented unicode_excerpt [168])
     = normalize_name_as_documented unicode_excerpt [168] \<and>
   normalize_name_as_documented unicode_excerpt [8450] = ustr ''c'' \<and>
   normalize_name_as_documented unicode_excerpt
       (normalize_name_as_documented unicode_excerpt [8450])
     = normalize_name_as_documented unicode_excerpt [8450]"
  by (simp add: normalize_name_def normalize_name_as_documented_def normalize_NFKC_def
      lower_def strip_def isspace_def is_ascii_def ascii_lower_def unicode_excerpt_def ustr_def)

section \<open>The blame output of one file\<close>

lemmas run_defs = blame_file_def count_line_def dict_add_def dict_get_def splitlines_def
  is_linebreak_def example_env_def example_blame_def jane_blame_def form_feed_blame_def

lemma splitlines_from_line:
  "\<forall>c\<in>set l. \<not> is_linebreak c \<Longrightarrow>
     splitlines_from cur (l @ 10 # rest) = (cur @ l) # splitlines_from [] rest"
proof (induction l arbitrary: cur)
  case Nil
  then show ?case by (cases rest) (simp_all add: is_linebreak_def)
next
  case (Cons c l)
  then have c: "\<not> is_linebreak c" and "c \<noteq> 13" by (auto simp: is_linebreak_def)
  obtain d s where ds: "l @ 10 # rest = d # s" by (cases "l @ 10 # rest") auto
  have "splitlines_from cur (c # d # s) = splitlines_from (cur @ [c]) (d # s)"
    using c \<open>c \<noteq> 13\<close> by simp
  then show ?case using Cons ds by simp
qed

lemma splitlines_join:
  "\<forall>l\<in>set ls. \<forall>c\<in>set l. \<not> is_linebreak c \<Longrightarrow>
     splitlines_from [] (concat (map (\<lambda>l. l @ [10]) ls)) = ls"
  by (induction ls) (simp_all add: splitlines_from_line)

text \<open>
  When the lines of the output hold no line boundary of \<open>splitlines\<close> but their final
  \<open>\n\<close>, the counts of a file are the counts of its lines.
\<close>

lemma blame_file_lines:
  assumes "git_blame E dir file_path = Completed 0 out err"
    and "out = concat (map (\<lambda>l. l @ [10]) ls)"
    and "\<forall>l\<in>set ls. \<forall>c\<in>set l. \<not> is_linebreak c"
    and "strip out \<noteq> []"
  shows "blame_file E dir author_counts file_path
    = fold (\<lambda>line counts. count_line counts line) ls author_counts"
  using assms by (simp add: blame_file_def splitlines_def splitlines_join)

text \<open>
  Claim C3. The four lines of the specification's example add one to \<open>Jane Doe\<close> and
  nothing else. But a line of the blame output that begins with a tab does not always
  leave the counts as they are: \<open>splitlines\<close> also cuts a line at a form feed (and at
  the other boundaries it knows), so the rest of the content line \<open>\tplan\<close>, form feed,
  \<open>author Eve\<close> is taken for a header line and \<open>Eve\<close> is counted.
\<close>

theorem tab_line_cut_at_form_feed:
  "git_blame example_env (ustr ''repo'') (ustr ''jane.txt'')
     = Completed 0
        (ustr ''abcd123 1 1 1'' @ [10] @ ustr ''author Jane Doe'' @ [10] @
         [9] @ ustr ''println()'' @ [10] @ ustr ''author-mail <jane@x.com>'' @ [10]) [] \<and>
   blame_file example_env (ustr ''repo'') [] (ustr ''jane.txt'') = [(ustr ''Jane Doe'', 1)] \<and>
   git_blame example_env (ustr ''repo'') (ustr ''notes.txt'')
     = Completed 0
        (ustr ''abcd123 1 1 1'' @ [10] @ ustr ''author Jane Doe'' @ [10] @
         [9] @ ustr ''plan'' @ [12] @ ustr ''author Eve'' @ [10]) [] \<and>
   split_on 10 form_feed_blame
     = [ustr ''abcd123 1 1 1'', ustr ''author Jane Doe'',
        [9] @ ustr ''plan'' @ [12] @ ustr ''author Eve'', []] \<and>
   startswith ([9] @ ustr ''plan'' @ [12] @ ustr ''author Eve'') [9] \<and>
   splitlines form_feed_blame
     = [ustr ''abcd123 1 1 1'', ustr ''author Jane Doe'', [9] @ ustr ''plan'',
        ustr ''author Eve''] \<and>
   blame_file example_env (ustr ''repo'') [] (ustr ''notes.txt'')
     = [(ustr ''Jane Doe'', 1), (ustr ''Eve'', 1)]"
  by (simp add: run_defs string_defs)

text \<open>
  At that output \<open>git blame\<close> has exited with code 0 and the output is not blank, so
  the file is not skipped at line 106; the count of \<open>Eve\<close> comes from the one output
  line that begins with a tab.
\<close>

theorem tab_line_cut_at_form_feed_witness:
  "git_blame example_env (ustr ''repo'') (ustr ''notes.txt'') = Completed 0 form_feed_blame [] \<and>
   strip form_feed_blame \<noteq> [] \<and>
   length (filter (\<lambda>line. startswith line (ustr ''author ''))
             (split_on 10 form_feed_blame)) = 1 \<and>
   dict_get (blame_file example_env (ustr ''repo'') [] (ustr ''notes.txt'')) (ustr ''Eve'') 0 = 1 \<and>
   dict_get (blame_file example_env (ustr ''repo'') [] (ustr ''jane.txt'')) (ustr ''Eve'') 0 = 0"
proof -
  have g: "git_blame example_env (ustr ''repo'') (ustr ''notes.txt'')
      = Completed 0 form_feed_blame []"
    by (simp add: example_env_def ustr_def)
  have s: "strip form_feed_blame \<noteq> []"
    by (simp add: form_feed_blame_def string_defs)
  have h: "length (filter (\<lambda>line. startswith line (ustr ''author ''))
             (split_on 10 form_feed_blame)) = 1"
    using tab_line_cut_at_form_feed by (simp add: string_defs)
  have e: "dict_get (blame_file example_env (ustr ''repo'') [] (ustr ''notes.txt''))
      (ustr ''Eve'') 0 = 1"
    using tab_line_cut_at_form_feed by (simp add: dict_get_def ustr_def)
  have j: "dict_get (blame_file example_env (ustr ''repo'') [] (ustr ''jane.txt''))
      (ustr ''Eve'') 0 = 0"
    using tab_line_cut_at_form_feed by (simp add: dict_get_def ustr_def)
  show ?thesis by (intro conjI) (fact g s h e j)+
qed

section \<open>A file whose blame fails\<close>

lemma print_cwd: "cwd (snd (print E m w)) = cwd w"
  by (simp add: print_def)

lemma process_files_counts:
  "fst (process_files E total_files idx files author_counts w) = Inr counts \<Longrightarrow>
     counts = fold (\<lambda>f c. blame_file E (cwd w) c f) files author_counts"
proof (induction files arbitrary: idx author_counts w)
  case Nil
  then show ?case by simp
next
  case (Cons f files)
  from Cons.prems show ?case
    by (auto simp: print_def split: if_splits dest!: Cons.IH)
qed

lemma process_files_exception:
  "fst (process_files E total_files idx files author_counts w) = Inl e \<Longrightarrow>
     \<exists>i f. e = Print_exception (Processing_file i total_files f)"
proof (induction files arbitrary: idx author_counts w)
  case Nil
  then show ?case by simp
next
  case (Cons f files)
  from Cons.prems show ?case
    by (auto simp: print_def split: if_splits dest!: Cons.IH)
qed

lemma process_files_returns:
  "\<forall>i f. \<not> print_raises E (Processing_file i total_files f) \<Longrightarrow>
     fst (process_files E total_files idx files author_counts w)
       = Inr (fold (\<lambda>f c. blame_file E (cwd w) c f) files author_counts) \<and>
     cwd (snd (process_files E total_files idx files author_counts w)) = cwd w \<and>
     figures (snd (process_files E total_files idx files author_counts w)) = figures w"
  by (induction files arbitrary: idx author_counts w) (simp_all add: print_def)

text \<open>
  Claim C8. When the blame call for a file raises, exits with a code other than zero, or
  prints nothing but whitespace, the file leaves the author counts as they are. The loop
  raises no exception but that of a progress line that cannot be printed, and when the
  progress lines print, the loop over a listing with such a file returns the counts of
  the files before it followed by the files after it: it goes on with the next file.
\<close>

theorem failed_blame_skips_file:
  "git_blame E (cwd w) file_path = Run_raises \<or>
   git_blame E (cwd w) file_path = Completed rc out err \<and> (rc \<noteq> 0 \<or> list_all isspace out)
   \<longrightarrow>
     blame_file E (cwd w) author_counts file_path = author_counts \<and>
     (\<forall>e. fst (process_files E total_files idx (earlier @ [file_path] @ later) author_counts w)
            = Inl e
          \<longrightarrow> (\<exists>i f. e = Print_exception (Processing_file i total_files f))) \<and>
     ((\<forall>i f. \<not> print_raises E (Processing_file i total_files f)) \<longrightarrow>
        fst (process_files E total_files idx (earlier @ [file_path] @ later) author_counts w)
          = Inr (fold (\<lambda>f counts. blame_file E (cwd w) counts f) later
                  (fold (\<lambda>f counts. blame_file E (cwd w) counts f) earlier author_counts)))"
proof (intro impI conjI allI)
  assume a: "git_blame E (cwd w) file_path = Run_raises \<or>
   git_blame E (cwd w) file_path = Completed rc out err \<and> (rc \<noteq> 0 \<or> list_all isspace out)"
  then have skip: "blame_file E (cwd w) ac file_path = ac" for ac
    by (rule blame_file_skipped)
  show "blame_file E (cwd w) author_counts file_path = author_counts"
    by (rule skip)
  {
    fix e
    assume "fst (process_files E total_files idx (earlier @ [file_path] @ later) author_counts w)
            = Inl e"
    then show "\<exists>i f. e = Print_exception (Processing_file i total_files f)"
      by (rule process_files_exception)
  }
  assume "\<forall>i f. \<not> print_raises E (Processing_file i total_files f)"
  then show "fst (process_files E total_files idx (earlier @ [file_path] @ later) author_counts w)
          = Inr (fold (\<lambda>f counts. blame_file E (cwd w) counts f) later
                  (fold (\<lambda>f counts. blame_file E (cwd w) counts f) earlier author_counts))"
    by (simp add: process_files_returns skip)
qed

lemma example_env_calls:
  "getcwd_raises example_env dir = False"
  "chdir_raises example_env dir path = False"
  "print_raises example_env m = False"
  "table_raises example_env rows = False"
  "plot_raises example_env rows = False"
  "tie_rank example_env row = 0"
  by (simp_all add: example_env_def)

theorem failed_blame_skips_file_witness:
  "git_blame example_env (cwd (example_world\<lparr>cwd := ustr ''repo''\<rparr>)) (ustr ''d'') = Run_raises \<and>
   git_blame example_env (cwd (example_world\<lparr>cwd := ustr ''repo''\<rparr>)) (ustr ''b.bin'')
     = Completed 128 [] (ustr ''fatal'') \<and>
   git_blame example_env (cwd (example_world\<lparr>cwd := ustr ''repo''\<rparr>)) (ustr ''c.txt'')
     = Completed 0 [10] [] \<and>
   list_all isspace [10] \<and>
   blame_file example_env (cwd (example_world\<lparr>cwd := ustr ''repo''\<rparr>)) [(ustr ''Bob'', 3)]
       (ustr ''d'') = [(ustr ''Bob'', 3)] \<and>
   blame_file example_env (cwd (example_world\<lparr>cwd := ustr ''repo''\<rparr>)) [(ustr ''Bob'', 3)]
       (ustr ''b.bin'') = [(ustr ''Bob'', 3)] \<and>
   blame_file example_env (cwd (example_world\<lparr>cwd := ustr ''repo''\<rparr>)) [(ustr ''Bob'', 3)]
       (ustr ''c.txt'') = [(ustr ''Bob'', 3)] \<and>
   fst (process_files example_env 4 1 ([ustr ''b.bin''] @ [ustr ''c.txt''] @ [ustr ''d'', ustr ''a.py''])
          [(ustr ''Bob'', 3)] (example_world\<lparr>cwd := ustr ''repo''\<rparr>))
     = Inr [(ustr ''Bob'', 3), (ustr ''Jane Doe'', 2), ([], 1)]"
proof -
  let ?w = "example_world\<lparr>cwd := ustr ''repo''\<rparr>"
  have d: "git_blame example_env (cwd ?w) (ustr ''d'') = Run_raises"
    by (simp add: example_env_def ustr_def)
  have b: "git_blame example_env (cwd ?w) (ustr ''b.bin'') = Completed 128 [] (ustr ''fatal'')"
    by (simp add: example_env_def ustr_def)
  have c: "git_blame example_env (cwd ?w) (ustr ''c.txt'') = Completed 0 [10] []"
    by (simp add: example_env_def ustr_def)
  have ws: "list_all isspace [10]" by (simp add: isspace_def)
  have quiet: "\<forall>i f. \<not> print_raises example_env (Processing_file i 4 f)"
    by (simp add: example_env_calls)
  have r1: "blame_file example_env (cwd ?w) [(ustr ''Bob'', 3)] (ustr ''d'') = [(ustr ''Bob'', 3)]"
    by (rule failed_blame_skips_file [THEN mp, THEN conjunct1]) (rule disjI1, rule d)
  have r2: "blame_file example_env (cwd ?w) [(ustr ''Bob'', 3)] (ustr ''b.bin'')
      = [(ustr ''Bob'', 3)]"
    by (rule failed_blame_skips_file [THEN mp, THEN conjunct1])
       (rule disjI2, rule conjI, rule b, simp)
  have r3: "blame_file example_env (cwd ?w) [(ustr ''Bob'', 3)] (ustr ''c.txt'')
      = [(ustr ''Bob'', 3)]"
    by (rule failed_blame_skips_file [THEN mp, THEN conjunct1])
       (rule disjI2, rule conjI, rule c, rule disjI2, rule ws)
  have "fst (process_files example_env 4 1
          ([ustr ''b.bin''] @ [ustr ''c.txt''] @ [ustr ''d'', ustr ''a.py''])
          [(ustr ''Bob'', 3)] ?w)
     = Inr (fold (\<lambda>f counts. blame_file example_env (cwd ?w) counts f) [ustr ''d'', ustr ''a.py'']
             (fold (\<lambda>f counts. blame_file example_env (cwd ?w) counts f) [ustr ''b.bin'']
                [(ustr ''Bob'', 3)]))"
    by (rule failed_blame_skips_file [THEN mp, THEN conjunct2, THEN conjunct2, THEN mp])
       (rule disjI2, rule conjI, rule c, rule disjI2, rule ws, rule quiet)
  also have "\<dots> = Inr [(ustr ''Bob'', 3), (ustr ''Jane Doe'', 2), ([], 1)]"
    by (simp add: run_defs string_defs example_world_def)
  finally have r4: "fst (process_files example_env 4 1
          ([ustr ''b.bin''] @ [ustr ''c.txt''] @ [ustr ''d'', ustr ''a.py''])
          [(ustr ''Bob'', 3)] ?w)
     = Inr [(ustr ''Bob'', 3), (ustr ''Jane Doe'', 2), ([], 1)]" .
  show ?thesis by (intro conjI) (fact d b c ws r1 r2 r3 r4)+
qed

section \<open>The run as a whole\<close>







subsection \<open>The example runs\<close>

lemmas main_defs = main_def main_try_def and_then_def try_finally_def print_def getcwd_def
  chdir_def table_def plot_def load_grouping_mapping_def grouping_file_path_of_def
  path_join_def example_world_def grouped_counts_def group_of_def sort_values_def
  register_line_def unicode_excerpt_def Let_def ascii_console_env_def mathtext_env_def
  cafe_txt_def dollar_foo_def

lemma example_run:
  "main unicode_excerpt example_env (ustr ''repo'') None example_world =
     (Inr (),
      \<lparr>cwd = ustr ''/home/u'',
       console =
         [Looking_for_grouping_file (ustr ''/opt/tool/grouping.txt''),
          Grouping_file_not_found (ustr ''/opt/tool/grouping.txt''),
          Loaded_mappings 0, Found_files 4, Processing_file 4 4 (ustr ''d''),
          Processing_complete, Lines_per_author_heading,
          Lines_per_author [(ustr ''Jane Doe'', 2), ([], 1)]],
       figures = [[(ustr ''Jane Doe'', 2), ([], 1)]]\<rparr>)"
  by (simp add: main_defs run_defs string_defs)


lemma example_run_broken:
  "main unicode_excerpt example_env (ustr ''broken'') None example_world =
     (Inl (RuntimeError_list_files (ustr ''fatal'')),
      example_world\<lparr>console := console example_world @
         [Looking_for_grouping_file (ustr ''/opt/tool/grouping.txt''),
          Grouping_file_not_found (ustr ''/opt/tool/grouping.txt''),
          Loaded_mappings 0]\<rparr>)"
  by (simp add: main_defs run_defs string_defs)


lemma example_run_cafe:
  "main unicode_excerpt ascii_console_env (ustr ''repo'') (Some cafe_txt) example_world =
     (Inl (Print_exception (Looking_for_grouping_file cafe_txt)),
      example_world\<lparr>cwd := ustr ''repo''\<rparr>)"
  by (simp add: main_defs run_defs string_defs)

lemma example_run_cafe_utf8:
  "main unicode_excerpt example_env (ustr ''repo'') (Some cafe_txt) example_world =
     (Inr (),
      \<lparr>cwd = ustr ''/home/u'',
       console =
         [Looking_for_grouping_file cafe_txt,
          Grouping_file_not_found cafe_txt,
          Loaded_mappings 0, Found_files 4, Processing_file 4 4 (ustr ''d''),
          Processing_complete, Lines_per_author_heading,
          Lines_per_author [(ustr ''Jane Doe'', 2), ([], 1)]],
       figures = [[(ustr ''Jane Doe'', 2), ([], 1)]]\<rparr>)"
  by (simp add: main_defs run_defs string_defs)





subsection \<open>The checks, the listing and the report\<close>








subsection \<open>When the run ends with an exception\<close>




subsection \<open>The working directory after the run\<close>

text \<open>
  Claim C5. The working directory is not restored on every path on which the run raises
  after \<open>os.chdir(repo_path)\<close>. Lines 69 to 77 stand between \<open>os.chdir\<close> (line 67) and
  \<open>try\<close> (line 78). With a console that cannot encode the path of the grouping file,
  the \<open>print\<close> of line 75 raises there: \<open>finally\<close> does not run and the run ends in
  \<open>repo\<close>, not in the directory in which it began. The same run with a console that
  prints the path, and a run that raises inside the \<open>try\<close> block, end where they began.
\<close>

theorem working_directory_left_changed:
  "isdir ascii_console_env (cwd example_world) (ustr ''repo'') \<and>
   isdir ascii_console_env (cwd example_world) (path_join (ustr ''repo'') (ustr ''.git'')) \<and>
   print_raises ascii_console_env (Looking_for_grouping_file cafe_txt) \<and>
   main unicode_excerpt ascii_console_env (ustr ''repo'') (Some cafe_txt) example_world =
     (Inl (Print_exception (Looking_for_grouping_file cafe_txt)),
      example_world\<lparr>cwd := ustr ''repo''\<rparr>) \<and>
   cwd (snd (main unicode_excerpt ascii_console_env (ustr ''repo'') (Some cafe_txt)
               example_world)) = ustr ''repo'' \<and>
   cwd example_world = ustr ''/home/u'' \<and>
   cwd (snd (main unicode_excerpt ascii_console_env (ustr ''repo'') (Some cafe_txt)
               example_world)) \<noteq> cwd example_world \<and>
   cwd (snd (main unicode_excerpt example_env (ustr ''repo'') (Some cafe_txt) example_world))
     = cwd example_world \<and>
   cwd (snd (main unicode_excerpt example_env (ustr ''broken'') None example_world))
     = cwd example_world"
proof -
  have f: "isdir ascii_console_env (cwd example_world) (ustr ''repo'')"
    "isdir ascii_console_env (cwd example_world) (path_join (ustr ''repo'') (ustr ''.git''))"
    "print_raises ascii_console_env (Looking_for_grouping_file cafe_txt)"
    by (simp_all add: ascii_console_env_def example_env_def path_join_def ustr_def
        cafe_txt_def is_ascii_def)
  have h: "cwd example_world = ustr ''/home/u''" by (simp add: example_world_def)
  have c: "cwd (snd (main unicode_excerpt ascii_console_env (ustr ''repo'') (Some cafe_txt)
               example_world)) = ustr ''repo''"
    unfolding example_run_cafe by simp
  have n: "cwd (snd (main unicode_excerpt ascii_console_env (ustr ''repo'') (Some cafe_txt)
               example_world)) \<noteq> cwd example_world"
    unfolding example_run_cafe by (simp add: example_world_def ustr_def)
  have u: "cwd (snd (main unicode_excerpt example_env (ustr ''repo'') (Some cafe_txt)
      example_world)) = cwd example_world"
    unfolding example_run_cafe_utf8 by (simp add: example_world_def)
  have b: "cwd (snd (main unicode_excerpt example_env (ustr ''broken'') None example_world))
     = cwd example_world"
    unfolding example_run_broken by simp
  show ?thesis by (intro conjI) (fact f h c n u b example_run_cafe)+
qed

section \<open>A run without a usable grouping file\<close>









section \<open>An author with an empty name\<close>

lemma startswith_append: "startswith (p @ s) p"
  by (simp add: startswith_def)

lemma set_sort_values: "set (sort_values E rows) = set rows"
  by (simp add: sort_values_def)

text \<open>The rows of the table are the rows given, by falling count.\<close>

lemma sort_values_rows:
  "sorted (map (\<lambda>row. - snd row) (sort_values E rows)) \<and>
   set (sort_values E rows) = set rows \<and> length (sort_values E rows) = length rows"
  by (simp add: sort_values_def sorted_sort_key)

lemma normalize_name_empty: "normalize_name U [] = []"
  by (simp add: string_defs)

lemma count_line_blank_author:
  assumes "list_all isspace ws"
  shows "count_line ac (ustr ''author '' @ ws) = dict_add ac [] 1"
  using assms
  by (simp add: count_line_author startswith_append strip_all_space)

text \<open>
  Claim C10. A header line that is \<open>author \<close> followed by whitespace only, or by nothing,
  is counted: it adds one to the count of the empty author name, which so becomes a key
  of the author counts. An empty author name among the author counts is reported under
  its group, which is the empty name itself unless the mapping has an entry for the
  empty alias; in the example run it is a row of the table and of the figure.
\<close>

theorem empty_author_name_counted:
  "(list_all isspace ws \<longrightarrow>
      count_line author_counts (ustr ''author '' @ ws) = dict_add author_counts [] 1 \<and>
      dict_get (count_line author_counts (ustr ''author '' @ ws)) [] 0
        = dict_get author_counts [] 0 + 1 \<and>
      [] \<in> fst ` set (count_line author_counts (ustr ''author '' @ ws))) \<and>
   ([] \<in> fst ` set author_counts \<longrightarrow>
      group_of U group_mapping []
        \<in> fst ` set (sort_values E (grouped_counts U group_mapping author_counts))) \<and>
   (map_of group_mapping [] = None \<longrightarrow> group_of U group_mapping [] = []) \<and>
   blame_file example_env (ustr ''repo'') [] (ustr ''a.py'') = [(ustr ''Jane Doe'', 2), ([], 1)] \<and>
   figures (snd (main unicode_excerpt example_env (ustr ''repo'') None example_world))
     = [[(ustr ''Jane Doe'', 2), ([], 1)]]"
proof (intro conjI impI)
  assume ws: "list_all isspace ws"
  then show c: "count_line author_counts (ustr ''author '' @ ws) = dict_add author_counts [] 1"
    by (rule count_line_blank_author)
  show "dict_get (count_line author_counts (ustr ''author '' @ ws)) [] 0
        = dict_get author_counts [] 0 + 1"
    by (simp add: c dict_get_dict_add)
  show "[] \<in> fst ` set (count_line author_counts (ustr ''author '' @ ws))"
    by (simp add: c keys_dict_add)
next
  assume "[] \<in> fst ` set author_counts"
  then show "group_of U group_mapping []
        \<in> fst ` set (sort_values E (grouped_counts U group_mapping author_counts))"
    by (simp add: set_sort_values grouped_counts_def fold_dict_add_keys)
next
  assume "map_of group_mapping [] = None"
  then show "group_of U group_mapping [] = []"
    by (simp add: group_of_def dict_get_def normalize_name_empty)
next
  show "blame_file example_env (ustr ''repo'') [] (ustr ''a.py'')
      = [(ustr ''Jane Doe'', 2), ([], 1)]"
    by (simp add: run_defs string_defs)
next
  show "figures (snd (main unicode_excerpt example_env (ustr ''repo'') None example_world))
     = [[(ustr ''Jane Doe'', 2), ([], 1)]]"
    unfolding example_run by simp
qed

theorem empty_author_name_counted_witness:
  "list_all isspace [32, 9] \<and>
   count_line [(ustr ''Jane Doe'', 2)] (ustr ''author '' @ [32, 9])
     = dict_add [(ustr ''Jane Doe'', 2)] [] 1 \<and>
   dict_add [(ustr ''Jane Doe'', 2)] [] 1 = [(ustr ''Jane Doe'', 2), ([], 1)] \<and>
   [] \<in> fst ` set [(ustr ''Jane Doe'', 2), ([], 1 :: int)] \<and>
   map_of [(ustr ''jane doe'', ustr ''Jane'')] [] = None \<and>
   group_of unicode_excerpt [(ustr ''jane doe'', ustr ''Jane'')] [] = [] \<and>
   group_of unicode_excerpt [(ustr ''jane doe'', ustr ''Jane'')] []
     \<in> fst ` set (sort_values example_env (grouped_counts unicode_excerpt
           [(ustr ''jane doe'', ustr ''Jane'')] [(ustr ''Jane Doe'', 2), ([], 1)]))"
proof -
  have ws: "list_all isspace [32, 9]" by (simp add: isspace_def)
  have r1: "count_line [(ustr ''Jane Doe'', 2)] (ustr ''author '' @ [32, 9])
     = dict_add [(ustr ''Jane Doe'', 2)] [] 1"
    by (rule empty_author_name_counted [THEN conjunct1, THEN mp, THEN conjunct1]) (rule ws)
  have e: "dict_add [(ustr ''Jane Doe'', 2)] [] 1 = [(ustr ''Jane Doe'', 2), ([], 1)]"
    by (simp add: dict_add_def dict_get_def ustr_def)
  have k: "[] \<in> fst ` set [(ustr ''Jane Doe'', 2), ([], 1 :: int)]" by simp
  have n: "map_of [(ustr ''jane doe'', ustr ''Jane'')] [] = None" by (simp add: ustr_def)
  have r2: "group_of unicode_excerpt [(ustr ''jane doe'', ustr ''Jane'')] [] = []"
    by (rule empty_author_name_counted
          [THEN conjunct2, THEN conjunct2, THEN conjunct1, THEN mp]) (rule n)
  have r3: "group_of unicode_excerpt [(ustr ''jane doe'', ustr ''Jane'')] []
     \<in> fst ` set (sort_values example_env (grouped_counts unicode_excerpt
           [(ustr ''jane doe'', ustr ''Jane'')] [(ustr ''Jane Doe'', 2), ([], 1)]))"
    by (rule empty_author_name_counted [THEN conjunct2, THEN conjunct1, THEN mp]) (rule k)
  show ?thesis by (intro conjI) (fact ws r1 e k n r2 r3)+
qed

end
